theory Spec2Isabelle
  imports Complex_Main "HOL-Library.Sublist"
begin

section \<open>JavaScript values used by the route handlers\<close>

text \<open>
  The handlers read JSON objects whose properties may be absent. An optional property is
  an \<open>option\<close>: \<open>None\<close> is \<^verbatim>\<open>undefined\<close>. JSON numbers are finite, so a
  number is a \<open>rat\<close> (ratings) or an \<open>int\<close> (counts); the only numeric operations
  of the handlers are comparisons with the constants 0, 3.5, 4.0, 10, 25, 50, 12, 18 and
  30, all of which are exact on IEEE doubles.
\<close>

definition truthy_str :: "string option \<Rightarrow> bool" where
  "truthy_str v = (case v of None \<Rightarrow> False | Some s \<Rightarrow> s \<noteq> [])"

definition truthy_num :: "'a::zero option \<Rightarrow> bool" where
  "truthy_num v = (case v of None \<Rightarrow> False | Some n \<Rightarrow> n \<noteq> 0)"

text \<open>\<^verbatim>\<open>a || b\<close> on optional strings and numbers, and \<^verbatim>\<open>a || 0\<close>, \<^verbatim>\<open>a || ''\<close>.\<close>

definition or_str :: "string option \<Rightarrow> string option \<Rightarrow> string option" where
  "or_str a b = (if truthy_str a then a else b)"

definition or_num :: "'a::zero option \<Rightarrow> 'a option \<Rightarrow> 'a option" where
  "or_num a b = (if truthy_num a then a else b)"

definition or_zero :: "'a::zero option \<Rightarrow> 'a" where
  "or_zero a = (case a of None \<Rightarrow> 0 | Some n \<Rightarrow> n)"

definition or_empty :: "string option \<Rightarrow> string" where
  "or_empty a = (case a of None \<Rightarrow> [] | Some s \<Rightarrow> s)"

text \<open>
  \<^verbatim>\<open>String.prototype.toLowerCase\<close> on the ASCII letters; every other character is
  left as it is. \<^verbatim>\<open>String.prototype.includes\<close> is the search for a contiguous
  occurrence.
\<close>

definition lower_char :: "char \<Rightarrow> char" where
  "lower_char c =
     (let n = (of_char c :: nat) in if 65 \<le> n \<and> n \<le> 90 then char_of (n + 32) else c)"

definition toLowerCase :: "string \<Rightarrow> string" where
  "toLowerCase s = map lower_char s"

fun includes_str :: "string \<Rightarrow> string \<Rightarrow> bool" where
  "includes_str [] n = (n = [])"
| "includes_str (c # cs) n = (prefix n (c # cs) \<or> includes_str cs n)"

section \<open>Objects of the Places API\<close>

text \<open>
  An object of the Places API, as the text search and the details request return it.
  A text search result also carries the source-local identifier \<open>place_id\<close>.
\<close>

record gobj =
  name :: "string option"
  formatted_phone_number :: "string option"
  website :: "string option"
  formatted_address :: "string option"
  vicinity :: "string option"
  rating :: "rat option"
  user_ratings_total :: "int option"
  url :: "string option"

record place = gobj +
  place_id :: string

text \<open>\<^verbatim>\<open>{ ...place, ...details }\<close>: a property present in \<open>details\<close> wins.\<close>

definition over :: "'a option \<Rightarrow> 'a option \<Rightarrow> 'a option" where
  "over d p = (case d of None \<Rightarrow> p | Some v \<Rightarrow> Some v)"

definition spread :: "place \<Rightarrow> gobj \<Rightarrow> place" where
  "spread p d =
     \<lparr> name = over (name d) (name p),
       formatted_phone_number = over (formatted_phone_number d) (formatted_phone_number p),
       website = over (website d) (website p),
       formatted_address = over (formatted_address d) (formatted_address p),
       vicinity = over (vicinity d) (vicinity p),
       rating = over (rating d) (rating p),
       user_ratings_total = over (user_ratings_total d) (user_ratings_total p),
       url = over (url d) (url p),
       place_id = place_id p \<rparr>"

section \<open>The scorer\<close>

definition highValueNiches :: "string list" where
  "highValueNiches =
     [''plumbers'', ''electricians'', ''roofing'', ''hvac'', ''auto detailing'', ''car detailing'']"

definition calculateLeadScore :: "'a gobj_scheme \<Rightarrow> string \<Rightarrow> int" where
  "calculateLeadScore place niche =
     (let score = 0;
          reviews = or_zero (user_ratings_total place);
          rating = or_zero (rating place);
          score = score + (if reviews = 0 then 10
                           else if reviews \<le> 10 then 8
                           else if reviews \<le> 25 then 5
                           else if reviews \<le> 50 then 3
                           else 1);
          score = score + (if rating > 0 \<and> rating \<le> 35 / 10 then 9
                           else if rating > 35 / 10 \<and> rating \<le> 4 then 4
                           else 0);
          score = score + (if \<not> truthy_str (website place) then 3 else 0);
          score = score + (if list_ex (\<lambda>n. includes_str (toLowerCase niche) n) highValueNiches
                           then 7 else 0)
      in min score 30)"

record tier =
  label :: string
  color :: string
  bg :: string

definition getTier :: "int \<Rightarrow> tier" where
  "getTier score =
     (if score \<ge> 18 then \<lparr> label = ''HOT'', color = ''#ef4444'', bg = ''rgba(239,68,68,0.2)'' \<rparr>
      else if score \<ge> 12 then \<lparr> label = ''WARM'', color = ''#f59e0b'', bg = ''rgba(245,158,11,0.2)'' \<rparr>
      else \<lparr> label = ''MED'', color = ''#60a5fa'', bg = ''rgba(59,130,246,0.2)'' \<rparr>)"

section \<open>Leads and the key-value store\<close>

text \<open>
  The lead object built by the scrape handler. \<open>name\<close> is
  \<^verbatim>\<open>details.name || place.name\<close> and stays undefined when neither object has one;
  every other property always has a value.
\<close>

record lead =
  lead_id :: string
  name :: "string option"
  phone :: string
  niche :: string
  city :: string
  state :: string
  address :: string
  rating :: rat
  review_count :: int
  gmb_link :: string
  website :: string
  lead_score :: int
  date_added :: string

text \<open>
  What the store holds under a key \<^verbatim>\<open>lead:<id>\<close>: the JSON text of a lead, which the
  client hands back parsed, or a string that is not JSON, on which \<^verbatim>\<open>JSON.parse\<close>
  throws.
\<close>

datatype kvval = Parsed lead | Unparsable

datatype exn = KvFailure | NetworkFailure | TypeError | SyntaxError

datatype kvop = Smembers | Get string | Set string | Sadd string

text \<open>
  The store: the string keys, the set \<^verbatim>\<open>leads:ids\<close> in the order in which
  \<^verbatim>\<open>SMEMBERS\<close> enumerates it (a Redis set has no order of its own; the list has
  no duplicates), and the commands on which the client currently throws.
\<close>

record store =
  kv :: "string \<rightharpoonup> kvval"
  ids :: "string list"
  failing :: "kvop \<Rightarrow> bool"

definition kv_smembers :: "store \<Rightarrow> (exn + string list) \<times> store" where
  "kv_smembers st = (if failing st Smembers then (Inl KvFailure, st) else (Inr (ids st), st))"

definition kv_get :: "string \<Rightarrow> store \<Rightarrow> (exn + kvval option) \<times> store" where
  "kv_get k st = (if failing st (Get k) then (Inl KvFailure, st) else (Inr (kv st k), st))"

definition kv_set :: "string \<Rightarrow> kvval \<Rightarrow> store \<Rightarrow> (exn + unit) \<times> store" where
  "kv_set k v st =
     (if failing st (Set k) then (Inl KvFailure, st) else (Inr (), st\<lparr>kv := (kv st)(k \<mapsto> v)\<rparr>))"

definition kv_sadd :: "string \<Rightarrow> store \<Rightarrow> (exn + unit) \<times> store" where
  "kv_sadd x st =
     (if failing st (Sadd x) then (Inl KvFailure, st)
      else (Inr (), st\<lparr>ids := (if x \<in> set (ids st) then ids st else ids st @ [x])\<rparr>))"

datatype 'a response = Ok200 'a | Failure nat string

section \<open>GET /api/stats\<close>

record stats =
  total :: nat
  hot :: nat
  warm :: nat
  new_this_session :: nat

definition zero_stats :: stats where
  "zero_stats = \<lparr> total = 0, hot = 0, warm = 0, new_this_session = 0 \<rparr>"

definition count_lead :: "string \<Rightarrow> lead \<Rightarrow> stats \<Rightarrow> stats" where
  "count_lead today l acc =
     (let acc = acc\<lparr>total := total acc + 1\<rparr>;
          score = lead_score l;
          acc = (if score \<ge> 18 then acc\<lparr>hot := hot acc + 1\<rparr>
                 else if score \<ge> 12 then acc\<lparr>warm := warm acc + 1\<rparr>
                 else acc)
      in if date_added l = today then acc\<lparr>new_this_session := new_this_session acc + 1\<rparr>
         else acc)"

fun stats_loop :: "string \<Rightarrow> string list \<Rightarrow> stats \<Rightarrow> store \<Rightarrow> (exn + stats) \<times> store" where
  "stats_loop today [] acc st = (Inr acc, st)"
| "stats_loop today (i # rest) acc st =
     (case kv_get (''lead:'' @ i) st of
        (Inl e, st1) \<Rightarrow> (Inl e, st1)
      | (Inr None, st1) \<Rightarrow> stats_loop today rest acc st1
      | (Inr (Some Unparsable), st1) \<Rightarrow> (Inl SyntaxError, st1)
      | (Inr (Some (Parsed l)), st1) \<Rightarrow> stats_loop today rest (count_lead today l acc) st1)"

text \<open>The body of the \<^verbatim>\<open>try\<close> block of the stats handler.\<close>

definition stats_try :: "string \<Rightarrow> store \<Rightarrow> (exn + stats) \<times> store" where
  "stats_try today st =
     (case kv_smembers st of
        (Inl e, st1) \<Rightarrow> (Inl e, st1)
      | (Inr leadIds, st1) \<Rightarrow>
          if length leadIds = 0 then (Inr zero_stats, st1)
          else stats_loop today leadIds zero_stats st1)"

definition GET_stats :: "string \<Rightarrow> store \<Rightarrow> stats response \<times> store" where
  "GET_stats today st =
     (case stats_try today st of
        (Inr s, st1) \<Rightarrow> (Ok200 s, st1)
      | (Inl e, st1) \<Rightarrow> (Ok200 zero_stats, st1))"

section \<open>GET /api/export\<close>

fun digits :: "nat \<Rightarrow> string" where
  "digits n =
     (if n < 10 then [char_of (48 + n)] else digits (n div 10) @ [char_of (48 + n mod 10)])"

declare digits.simps [simp del]

fun fraction :: "nat \<Rightarrow> rat \<Rightarrow> string" where
  "fraction 0 f = []"
| "fraction (Suc k) f =
     (if f = 0 then []
      else (let d = nat \<lfloor>f * 10\<rfloor> in char_of (48 + d) # fraction k (f * 10 - of_nat d)))"

text \<open>
  \<^verbatim>\<open>Number.prototype.toString\<close> on a number that is 0 or of a magnitude from
  \<open>10\<^sup>-\<^sup>6\<close> up to, but not including, \<open>10\<^sup>2\<^sup>1\<close>, and that is a decimal of at
  most 17 fractional digits: the sign, the integer part, and the fractional digits when
  there are any. Outside this range the language prints an exponent; the ratings, counts
  and scores of the leads are inside it.
\<close>

definition num_toString :: "rat \<Rightarrow> string" where
  "num_toString x =
     (let a = \<bar>x\<bar>; f = a - of_int \<lfloor>a\<rfloor> in
      (if x < 0 then ''-'' else []) @ digits (nat \<lfloor>a\<rfloor>) @
      (if f = 0 then [] else ''.'' @ fraction 17 f))"

text \<open>\<^verbatim>\<open>(lead[h] || '').toString()\<close> for a property name \<open>h\<close>.\<close>

definition num_text :: "rat \<Rightarrow> string" where
  "num_text x = (if x = 0 then [] else num_toString x)"

definition field_text :: "lead \<Rightarrow> string \<Rightarrow> string" where
  "field_text l h =
     (if h = ''id'' then lead_id l
      else if h = ''name'' then or_empty (name l)
      else if h = ''phone'' then phone l
      else if h = ''niche'' then niche l
      else if h = ''city'' then city l
      else if h = ''state'' then state l
      else if h = ''address'' then address l
      else if h = ''rating'' then num_text (rating l)
      else if h = ''review_count'' then num_text (of_int (review_count l))
      else if h = ''gmb_link'' then gmb_link l
      else if h = ''website'' then website l
      else if h = ''lead_score'' then num_text (of_int (lead_score l))
      else if h = ''date_added'' then date_added l
      else [])"

definition dquote :: char where
  "dquote = CHR 0x22"

definition backslash :: char where
  "backslash = CHR 0x5C"

text \<open>\<^verbatim>\<open>.replace(/"/g, '\\"')\<close>: a backslash goes before every double quote.\<close>

definition escape_quotes :: "string \<Rightarrow> string" where
  "escape_quotes s = concat (map (\<lambda>c. if c = dquote then [backslash, dquote] else [c]) s)"

fun join :: "string \<Rightarrow> string list \<Rightarrow> string" where
  "join sep [] = []"
| "join sep [x] = x"
| "join sep (x # y # ys) = x @ sep @ join sep (y # ys)"

definition headers :: "string list" where
  "headers = [''name'', ''phone'', ''niche'', ''city'', ''state'', ''address'', ''rating'',
              ''review_count'', ''lead_score'', ''gmb_link'']"

definition cell :: "lead \<Rightarrow> string \<Rightarrow> string" where
  "cell l h = [dquote] @ escape_quotes (field_text l h) @ [dquote]"

definition csv_row :: "lead \<Rightarrow> string" where
  "csv_row l = join '','' (map (cell l) headers)"

text \<open>
  \<^verbatim>\<open>leads.sort((a, b) => (b.lead_score || 0) - (a.lead_score || 0))\<close>: the sort of the
  language is stable, so leads of equal score keep their order.
\<close>

definition sort_by_score :: "lead list \<Rightarrow> lead list" where
  "sort_by_score ls = sort_key (\<lambda>l. - lead_score l) ls"

definition csv_of :: "lead list \<Rightarrow> string" where
  "csv_of ls = join [CHR 0x0A] (join '','' headers # map csv_row ls)"

fun export_loop :: "string list \<Rightarrow> lead list \<Rightarrow> store \<Rightarrow> (exn + lead list) \<times> store" where
  "export_loop [] acc st = (Inr acc, st)"
| "export_loop (i # rest) acc st =
     (case kv_get (''lead:'' @ i) st of
        (Inl e, st1) \<Rightarrow> (Inl e, st1)
      | (Inr None, st1) \<Rightarrow> export_loop rest acc st1
      | (Inr (Some Unparsable), st1) \<Rightarrow> (Inl SyntaxError, st1)
      | (Inr (Some (Parsed l)), st1) \<Rightarrow> export_loop rest (acc @ [l]) st1)"

definition export_try :: "store \<Rightarrow> (exn + string) \<times> store" where
  "export_try st =
     (case kv_smembers st of
        (Inl e, st1) \<Rightarrow> (Inl e, st1)
      | (Inr leadIds, st1) \<Rightarrow>
          (case export_loop leadIds [] st1 of
             (Inl e, st2) \<Rightarrow> (Inl e, st2)
           | (Inr ls, st2) \<Rightarrow> (Inr (csv_of (sort_by_score ls)), st2)))"

definition GET_export :: "store \<Rightarrow> string response \<times> store" where
  "GET_export st =
     (case export_try st of
        (Inr csv, st1) \<Rightarrow> (Ok200 csv, st1)
      | (Inl e, st1) \<Rightarrow> (Failure 500 ''Export failed'', st1))"

section \<open>POST /api/scrape\<close>

text \<open>
  The outside world. A request goes to the text search (query, key, page token) or to
  the details endpoint (place id, key). \<^verbatim>\<open>fetch\<close> followed by
  \<^verbatim>\<open>response.json()\<close> either yields a JSON body, any of whose properties may be
  missing, or ends in an exception: the request fails, the body is not JSON, or the body
  is \<^verbatim>\<open>null\<close>, whose \<^verbatim>\<open>status\<close> cannot be read. The world answers a request
  knowing all the requests sent before it, so it may answer the same request differently
  each time.
\<close>

datatype request = TextSearch string string "string option" | PlaceDetails string string

record api_body =
  status :: "string option"
  results :: "place list option"
  next_page_token :: "string option"
  result :: "gobj option"

datatype fetched = Rejected | Body api_body

type_synonym world = "request list \<Rightarrow> request \<Rightarrow> fetched"

text \<open>
  The value of \<^verbatim>\<open>limit\<close> as the three places that read it see it. The handler
  takes \<^verbatim>\<open>limit\<close> from the request body without any check, and divides it by 20
  and compares it with \<^verbatim>\<open>>=\<close> and \<^verbatim>\<open><\<close> to a number; each of these turns
  the value into a number first. So \<^verbatim>\<open>limit\<close> is a finite number, which may have a
  fraction, or an infinity (the JSON text \<^verbatim>\<open>1e999\<close> is read as Infinity), or NaN
  (a string that is no number, an object); \<^verbatim>\<open>null\<close>, \<^verbatim>\<open>false\<close> and the empty
  string count as 0. A finite number is taken as the rational that it denotes. A
  comparison with NaN is false.
\<close>

datatype jsnum = Num rat | PosInf | NegInf | NaN

fun js_ge :: "rat \<Rightarrow> jsnum \<Rightarrow> bool" where
  "js_ge x (Num q) = (x \<ge> q)"
| "js_ge x PosInf = False"
| "js_ge x NegInf = True"
| "js_ge x NaN = False"

fun js_lt :: "rat \<Rightarrow> jsnum \<Rightarrow> bool" where
  "js_lt x (Num q) = (x < q)"
| "js_lt x PosInf = True"
| "js_lt x NegInf = False"
| "js_lt x NaN = False"

text \<open>\<^verbatim>\<open>Math.ceil(x / 20)\<close>.\<close>

fun ceil_div20 :: "jsnum \<Rightarrow> jsnum" where
  "ceil_div20 (Num q) = Num (of_int \<lceil>q / 20\<rceil>)"
| "ceil_div20 PosInf = PosInf"
| "ceil_div20 NegInf = NegInf"
| "ceil_div20 NaN = NaN"

text \<open>The constants of one call of the handler, and its mutable locals.\<close>

record job =
  net :: world
  apiKey :: string
  today :: string
  niche :: string
  city :: string
  state :: string
  limit :: jsnum

record run =
  leads :: "lead list"
  db :: store
  sent :: "request list"

definition query :: "job \<Rightarrow> string" where
  "query j = job.niche j @ '' in '' @ job.city j @ '', '' @ job.state j"

definition maxAttempts :: "job \<Rightarrow> jsnum" where
  "maxAttempts j = ceil_div20 (limit j)"

definition new_lead :: "job \<Rightarrow> place \<Rightarrow> gobj \<Rightarrow> lead" where
  "new_lead j place details =
     \<lparr> lead_id = place_id place,
       lead.name = or_str (gobj.name details) (gobj.name place),
       phone = or_empty (formatted_phone_number details),
       lead.niche = job.niche j,
       lead.city = job.city j,
       lead.state = job.state j,
       address = or_empty (or_str (or_str (formatted_address details) (vicinity details))
                                  (formatted_address place)),
       lead.rating = or_zero (or_num (gobj.rating details) (gobj.rating place)),
       review_count = or_zero (or_num (user_ratings_total details) (user_ratings_total place)),
       gmb_link = (let u = or_str (url details) (url place) in
                   if truthy_str u then or_empty u
                   else ''https://www.google.com/maps/place/?q=place_id:'' @ place_id place),
       lead.website = [],
       lead_score = 0,
       date_added = today j \<rparr>"

text \<open>The duplicate check and the two writes.\<close>

definition save_lead :: "lead \<Rightarrow> run \<Rightarrow> exn option \<times> run" where
  "save_lead l r =
     (case kv_get (''lead:'' @ lead_id l) (db r) of
        (Inl e, db1) \<Rightarrow> (Some e, r\<lparr>db := db1\<rparr>)
      | (Inr (Some existing), db1) \<Rightarrow> (None, r\<lparr>db := db1\<rparr>)
      | (Inr None, db1) \<Rightarrow>
          (let r1 = r\<lparr>leads := leads r @ [l], db := db1\<rparr> in
           case kv_set (''lead:'' @ lead_id l) (Parsed l) (db r1) of
             (Inl e, db2) \<Rightarrow> (Some e, r1\<lparr>db := db2\<rparr>)
           | (Inr u, db2) \<Rightarrow>
               (case kv_sadd (lead_id l) db2 of
                  (Inl e, db3) \<Rightarrow> (Some e, r1\<lparr>db := db3\<rparr>)
                | (Inr u, db3) \<Rightarrow> (None, r1\<lparr>db := db3\<rparr>))))"

text \<open>What the handler does with the details of one place.\<close>

definition handle_details :: "job \<Rightarrow> place \<Rightarrow> gobj \<Rightarrow> run \<Rightarrow> exn option \<times> run" where
  "handle_details j place details r =
     (if \<not> truthy_str (gobj.website details) \<and> truthy_str (formatted_phone_number details)
      then save_lead
             ((new_lead j place details)
                \<lparr>lead_score := calculateLeadScore (spread place details) (job.niche j)\<rparr>) r
      else (None, r))"

definition visit_place :: "job \<Rightarrow> place \<Rightarrow> run \<Rightarrow> exn option \<times> run" where
  "visit_place j place r =
     (let req = PlaceDetails (place_id place) (apiKey j);
          r1 = r\<lparr>sent := sent r @ [req]\<rparr> in
      case net j (sent r) req of
        Rejected \<Rightarrow> (Some NetworkFailure, r1)
      | Body detailsData \<Rightarrow>
          if status detailsData = Some ''OK'' then
            (case result detailsData of
               None \<Rightarrow> (Some TypeError, r1)
             | Some details \<Rightarrow> handle_details j place details r1)
          else (None, r1))"

fun for_places :: "job \<Rightarrow> place list \<Rightarrow> run \<Rightarrow> exn option \<times> run" where
  "for_places j [] r = (None, r)"
| "for_places j (place # rest) r =
     (if js_ge (of_nat (length (leads r))) (limit j) then (None, r)
      else (case visit_place j place r of
              (Some e, r1) \<Rightarrow> (Some e, r1)
            | (None, r1) \<Rightarrow> for_places j rest r1))"

text \<open>
  One pass through the body of the \<^verbatim>\<open>do ... while\<close> loop ends with
  \<^verbatim>\<open>break\<close>, with an exception, or at the end of the body with the new value of
  \<^verbatim>\<open>nextPageToken\<close>. The waiting between requests has no effect on any value and
  is left out.
\<close>

datatype flow = Break | Throw exn | Next "string option"

definition loop_body :: "job \<Rightarrow> string option \<Rightarrow> run \<Rightarrow> flow \<times> run" where
  "loop_body j nextPageToken r =
     (let req = TextSearch (query j) (apiKey j)
                  (if truthy_str nextPageToken then nextPageToken else None);
          r1 = r\<lparr>sent := sent r @ [req]\<rparr> in
      case net j (sent r) req of
        Rejected \<Rightarrow> (Throw NetworkFailure, r1)
      | Body data \<Rightarrow>
          if status data \<noteq> Some ''OK'' \<and> status data \<noteq> Some ''ZERO_RESULTS'' then (Break, r1)
          else (case for_places j (case results data of None \<Rightarrow> [] | Some ps \<Rightarrow> ps) r1 of
                  (Some e, r2) \<Rightarrow> (Throw e, r2)
                | (None, r2) \<Rightarrow> (Next (next_page_token data), r2)))"

text \<open>
  The loop, with its two loop variables as arguments. With an infinite limit nothing caps
  the loop, so it need not end: the result is \<open>None\<close> when it does not.
\<close>

partial_function (option) do_while ::
  "job \<Rightarrow> string option \<Rightarrow> int \<Rightarrow> run \<Rightarrow> (exn option \<times> run) option" where
  "do_while j nextPageToken attempts r =
     (case loop_body j nextPageToken r of
        (Throw e, r1) \<Rightarrow> Some (Some e, r1)
      | (Break, r1) \<Rightarrow> Some (None, r1)
      | (Next tok, r1) \<Rightarrow>
          if truthy_str tok \<and> js_lt (of_nat (length (leads r1))) (limit j)
             \<and> js_lt (of_int (attempts + 1)) (maxAttempts j)
          then do_while j tok (attempts + 1) r1
          else Some (None, r1))"

declare do_while.simps [code]

record scrape_body =
  success :: bool
  leads_found :: nat
  leads :: "lead list"

text \<open>
  The handler. \<open>body\<close> is the parsed request body (\<open>None\<close> when
  \<^verbatim>\<open>request.json()\<close> rejects): niche, city, state and the limit, which is
  \<open>None\<close> when the body has no such property, so that the default 100 applies.
  \<open>env_key\<close> is \<^verbatim>\<open>process.env.GOOGLE_PLACES_API_KEY\<close>, and \<open>date\<close> is the
  calendar date of the call, \<^verbatim>\<open>new Date().toISOString().split('T')[0]\<close>. A call that
  ends in the \<^verbatim>\<open>catch\<close> block leaves in the store what it wrote before. The result
  is \<open>None\<close> when the loop does not end.
\<close>

definition POST_scrape ::
  "world \<Rightarrow> string option \<Rightarrow> string \<Rightarrow>
   (string option \<times> string option \<times> string option \<times> jsnum option) option \<Rightarrow>
   store \<Rightarrow> (scrape_body response \<times> store) option" where
  "POST_scrape w env_key date body st =
     (case body of
        None \<Rightarrow> Some (Failure 500 ''Scraping failed'', st)
      | Some (n, c, s, limit_opt) \<Rightarrow>
          if \<not> truthy_str n \<or> \<not> truthy_str c \<or> \<not> truthy_str s
          then Some (Failure 400 ''Missing required fields'', st)
          else if \<not> truthy_str env_key then Some (Failure 500 ''API key not configured'', st)
          else
            (let j = \<lparr> net = w, apiKey = or_empty env_key, today = date,
                       job.niche = or_empty n, job.city = or_empty c, job.state = or_empty s,
                       limit = (case limit_opt of None \<Rightarrow> Num 100 | Some k \<Rightarrow> k) \<rparr> in
             case do_while j None 0 \<lparr> run.leads = [], db = st, sent = [] \<rparr> of
               None \<Rightarrow> None
             | Some (Some e, r) \<Rightarrow> Some (Failure 500 ''Scraping failed'', db r)
             | Some (None, r) \<Rightarrow>
                 Some (Ok200 \<lparr> success = True, leads_found = length (run.leads r),
                               scrape_body.leads = run.leads r \<rparr>, db r)))"

section \<open>The published scoring policy\<close>

text \<open>
  The policy as the specification publishes it, term by term, for a review count, a
  rating, the presence of a website and a niche. A niche matches the high-value list when
  some contiguous part of it is, up to the case of its letters, an entry of the list.
\<close>

definition review_term :: "int \<Rightarrow> int" where
  "review_term n =
     (if n = 0 then 10
      else if 1 \<le> n \<and> n \<le> 10 then 8
      else if 11 \<le> n \<and> n \<le> 25 then 5
      else if 26 \<le> n \<and> n \<le> 50 then 3
      else if n > 50 then 1
      else 0)"

definition rating_term :: "rat \<Rightarrow> int" where
  "rating_term x =
     (if 0 < x \<and> x \<le> 35 / 10 then 9 else if 35 / 10 < x \<and> x \<le> 4 then 4 else 0)"

definition website_term :: "bool \<Rightarrow> int" where
  "website_term has_website = (if has_website then 0 else 3)"

definition niche_matches :: "string \<Rightarrow> bool" where
  "niche_matches nm =
     (\<exists>n \<in> set highValueNiches. \<exists>pre mid suf. nm = pre @ mid @ suf \<and> toLowerCase mid = n)"

definition niche_term :: "string \<Rightarrow> int" where
  "niche_term nm = (if niche_matches nm then 7 else 0)"

definition published_score :: "int \<Rightarrow> rat \<Rightarrow> bool \<Rightarrow> string \<Rightarrow> int" where
  "published_score reviews x has_website nm =
     max 0 (min 30 (review_term reviews + rating_term x + website_term has_website + niche_term nm))"

section \<open>Notions used to state the properties\<close>

text \<open>A store none of whose commands throws.\<close>

definition healthy :: "store \<Rightarrow> bool" where
  "healthy st = (\<forall>cmd. \<not> failing st cmd)"

text \<open>
  An entry that passed the qualifying filter: a lead with a phone and without a website,
  under the key made from its own id.
\<close>

definition qualified_entry :: "string \<Rightarrow> kvval \<Rightarrow> bool" where
  "qualified_entry k v =
     (case v of
        Parsed l \<Rightarrow> k = ''lead:'' @ lead_id l \<and> phone l \<noteq> [] \<and> lead.website l = []
      | Unparsable \<Rightarrow> False)"

text \<open>
  \<open>grows st st'\<close>: every entry of \<open>st\<close> is in \<open>st'\<close> as it was, and every entry that
  \<open>st'\<close> has in addition is qualified.
\<close>

definition grows :: "store \<Rightarrow> store \<Rightarrow> bool" where
  "grows st st' =
     (\<forall>k. case kv st k of
             Some v \<Rightarrow> kv st' k = Some v
           | None \<Rightarrow> (case kv st' k of None \<Rightarrow> True | Some v \<Rightarrow> qualified_entry k v))"



text \<open>The leads of the store in the order in which the id set is enumerated.\<close>

definition enumerated_leads :: "store \<Rightarrow> lead list" where
  "enumerated_leads st =
     List.map_filter (\<lambda>i. case kv st (''lead:'' @ i) of Some (Parsed l) \<Rightarrow> Some l | _ \<Rightarrow> None)
       (ids st)"

text \<open>
  No double quote stands bare: each one comes right after a backslash. The flag says
  whether the character before the text is a backslash.
\<close>

fun no_bare_quote :: "bool \<Rightarrow> string \<Rightarrow> bool" where
  "no_bare_quote escaped [] = True"
| "no_bare_quote escaped (c # cs) = ((c = dquote \<longrightarrow> escaped) \<and> no_bare_quote (c = backslash) cs)"


text \<open>The job that the handler makes of a request body with all its fields.\<close>

definition job_of ::
  "world \<Rightarrow> string option \<Rightarrow> string \<Rightarrow> string option \<Rightarrow> string option \<Rightarrow> string option \<Rightarrow>
   jsnum option \<Rightarrow> job" where
  "job_of w env_key date n c s limit_opt =
     \<lparr> net = w, apiKey = or_empty env_key, today = date,
       job.niche = or_empty n, job.city = or_empty c, job.state = or_empty s,
       limit = (case limit_opt of None \<Rightarrow> Num 100 | Some k \<Rightarrow> k) \<rparr>"

section \<open>Concrete inputs\<close>

definition plumber_place :: gobj where
  "plumber_place = \<lparr> gobj.name = None, formatted_phone_number = None, gobj.website = None,
      formatted_address = None, vicinity = None, gobj.rating = Some (32 / 10),
      user_ratings_total = Some 5, url = None \<rparr>"

definition acme :: place where
  "acme = \<lparr> gobj.name = Some ''Acme Plumbing'', formatted_phone_number = None,
      gobj.website = None, formatted_address = Some ''1 Main St, Houston, TX'', vicinity = None,
      gobj.rating = Some (32 / 10), user_ratings_total = Some 5, url = None,
      place_id = ''ChIJ-acme'' \<rparr>"

definition acme_twin :: place where
  "acme_twin = acme\<lparr>place_id := ''ChIJ-twin''\<rparr>"

definition acme_details :: gobj where
  "acme_details = \<lparr> gobj.name = Some ''Acme Plumbing'',
      formatted_phone_number = Some ''555-1234'', gobj.website = Some [],
      formatted_address = Some ''1 Main St, Houston, TX'', vicinity = None,
      gobj.rating = Some (32 / 10), user_ratings_total = Some 5, url = None \<rparr>"

definition site_details :: gobj where
  "site_details = acme_details\<lparr>gobj.website := Some ''http://x.com''\<rparr>"


definition details_body :: api_body where
  "details_body = \<lparr> status = Some ''OK'', results = None, next_page_token = None,
      result = Some acme_details \<rparr>"

definition denied_body :: api_body where
  "denied_body = \<lparr> status = Some ''REQUEST_DENIED'', results = None, next_page_token = None,
      result = None \<rparr>"


definition denied_world :: world where
  "denied_world before req =
     (case req of
        TextSearch q k None \<Rightarrow>
          Body \<lparr> status = Some ''OK'', results = Some [acme],
                 next_page_token = Some ''page2'', result = None \<rparr>
      | TextSearch q k (Some t) \<Rightarrow> Body denied_body
      | PlaceDetails p k \<Rightarrow> Body details_body)"

definition demo_job :: "world \<Rightarrow> jsnum \<Rightarrow> job" where
  "demo_job w n = \<lparr> net = w, apiKey = ''key'', today = ''2024-05-01'', job.niche = ''plumbers'',
      job.city = ''Houston'', job.state = ''TX'', limit = n \<rparr>"

definition empty_store :: store where
  "empty_store = \<lparr> kv = Map.empty, ids = [], failing = (\<lambda>cmd. False) \<rparr>"

definition fresh_run :: run where
  "fresh_run = \<lparr> run.leads = [], db = empty_store, sent = [] \<rparr>"

definition lead_a :: lead where
  "lead_a = \<lparr> lead_id = ''a'', lead.name = Some ''Acme Plumbing'', phone = ''555-1234'',
      lead.niche = ''plumbers'', lead.city = ''Houston'', lead.state = ''TX'',
      address = ''1 Main St'', lead.rating = 0, review_count = 0,
      gmb_link = ''https://maps.example/a'', lead.website = [], lead_score = 20,
      date_added = ''2024-05-01'' \<rparr>"

definition lead_b :: lead where
  "lead_b = \<lparr> lead_id = ''b'', lead.name = Some ''Best Roofing'', phone = ''555-9999'',
      lead.niche = ''roofing'', lead.city = ''Houston'', lead.state = ''TX'',
      address = ''2 Main St'', lead.rating = 0, review_count = 0,
      gmb_link = ''https://maps.example/b'', lead.website = [], lead_score = 20,
      date_added = ''2024-05-01'' \<rparr>"

text \<open>
  Two stores with the same entries and the same id set, enumerated in the two possible
  orders; a store whose \<^verbatim>\<open>SMEMBERS\<close> throws; a run that already holds \<open>lead_a\<close>.
\<close>

definition tie_store_ba :: store where
  "tie_store_ba = \<lparr> kv = [''lead:a'' \<mapsto> Parsed lead_a, ''lead:b'' \<mapsto> Parsed lead_b],
      ids = [''b'', ''a''], failing = (\<lambda>cmd. False) \<rparr>"

definition tie_store_ab :: store where
  "tie_store_ab = \<lparr> kv = [''lead:a'' \<mapsto> Parsed lead_a, ''lead:b'' \<mapsto> Parsed lead_b],
      ids = [''a'', ''b''], failing = (\<lambda>cmd. False) \<rparr>"

definition broken_store :: store where
  "broken_store = \<lparr> kv = [''lead:a'' \<mapsto> Parsed lead_a], ids = [''a''],
      failing = (\<lambda>cmd. cmd = Smembers) \<rparr>"

definition busy_run :: run where
  "busy_run = \<lparr> run.leads = [],
      db = \<lparr> kv = [''lead:a'' \<mapsto> Parsed lead_a], ids = [''a''], failing = (\<lambda>cmd. False) \<rparr>,
      sent = [] \<rparr>"

definition acme_lead :: lead where
  "acme_lead = \<lparr> lead_id = ''ChIJ-acme'', lead.name = Some ''Acme Plumbing'',
      phone = ''555-1234'', lead.niche = ''plumbers'', lead.city = ''Houston'',
      lead.state = ''TX'', address = ''1 Main St, Houston, TX'', lead.rating = 32 / 10,
      review_count = 5,
      gmb_link = ''https://www.google.com/maps/place/?q=place_id:ChIJ-acme'',
      lead.website = [], lead_score = 27, date_added = ''2024-05-01'' \<rparr>"

definition twin_lead :: lead where
  "twin_lead = acme_lead\<lparr>lead_id := ''ChIJ-twin'',
      gmb_link := ''https://www.google.com/maps/place/?q=place_id:ChIJ-twin''\<rparr>"

definition twin_world :: world where
  "twin_world before req =
     (case req of
        TextSearch q k t \<Rightarrow>
          Body \<lparr> status = Some ''OK'', results = Some [acme, acme_twin],
                 next_page_token = None, result = None \<rparr>
      | PlaceDetails p k \<Rightarrow> Body details_body)"

definition demo_request ::
  "(string option \<times> string option \<times> string option \<times> jsnum option) option" where
  "demo_request = Some (Some ''plumbers'', Some ''Houston'', Some ''TX'', None)"

definition lead_a2 :: lead where
  "lead_a2 = lead_a\<lparr>phone := ''555-0000'', lead_score := 5\<rparr>"

definition renamed_details :: gobj where
  "renamed_details = acme_details\<lparr>gobj.name := Some ''Zenith Pipes''\<rparr>"

definition acme_run :: run where
  "acme_run = \<lparr> run.leads = [acme_lead],
      db = \<lparr> kv = [''lead:ChIJ-acme'' \<mapsto> Parsed acme_lead], ids = [''ChIJ-acme''],
             failing = (\<lambda>cmd. False) \<rparr>,
      sent = [] \<rparr>"

definition quoted_lead :: lead where
  "quoted_lead = lead_a\<lparr>lead.name := Some (''Joe '' @ [dquote] @ ''The'' @ [dquote] @ '' Plumber'')\<rparr>"

definition quoted_store :: store where
  "quoted_store = \<lparr> kv = [''lead:a'' \<mapsto> Parsed quoted_lead], ids = [''a''],
      failing = (\<lambda>cmd. False) \<rparr>"

text \<open>
  A source with one page that holds the place \<open>acme\<close>, whose details qualify; the same
  source with details that have a website; and a source whose first page is fine and
  whose second page cannot be read.
\<close>

definition once_world :: world where
  "once_world before req =
     (case req of
        TextSearch q k t \<Rightarrow>
          Body \<lparr> status = Some ''OK'', results = Some [acme], next_page_token = None,
                 result = None \<rparr>
      | PlaceDetails p k \<Rightarrow> Body details_body)"

definition site_world :: world where
  "site_world before req =
     (case req of
        TextSearch q k t \<Rightarrow>
          Body \<lparr> status = Some ''OK'', results = Some [acme], next_page_token = None,
                 result = None \<rparr>
      | PlaceDetails p k \<Rightarrow>
          Body \<lparr> status = Some ''OK'', results = None, next_page_token = None,
                 result = Some site_details \<rparr>)"


definition no_leads :: scrape_body where
  "no_leads = \<lparr> success = True, leads_found = 0, scrape_body.leads = [] \<rparr>"

section \<open>Properties of the scorer\<close>

lemma includes_str_sublist: "includes_str s n \<longleftrightarrow> sublist n s"
  by (induction s) (simp_all add: sublist_Cons_right)

lemma sublist_map_iff:
  "sublist n (map f xs) \<longleftrightarrow> (\<exists>pre mid suf. xs = pre @ mid @ suf \<and> map f mid = n)"
proof
  assume "sublist n (map f xs)"
  then obtain ps ss where "map f xs = ps @ n @ ss"
    by (auto simp: sublist_def)
  then show "\<exists>pre mid suf. xs = pre @ mid @ suf \<and> map f mid = n"
    by (fastforce simp: map_eq_append_conv append_eq_map_conv)
next
  assume "\<exists>pre mid suf. xs = pre @ mid @ suf \<and> map f mid = n"
  then obtain pre mid suf where "xs = pre @ mid @ suf" and "map f mid = n"
    by blast
  then have "map f xs = map f pre @ n @ map f suf"
    by simp
  then show "sublist n (map f xs)"
    unfolding sublist_def by blast
qed

lemma niche_matches_code:
  "list_ex (\<lambda>n. includes_str (toLowerCase nm) n) highValueNiches \<longleftrightarrow> niche_matches nm"
  unfolding niche_matches_def list_ex_iff includes_str_sublist toLowerCase_def sublist_map_iff
  by blast

lemma score_sum_bounds:
  "0 \<le> calculateLeadScore place nm \<and> calculateLeadScore place nm \<le> 30"
  by (simp add: calculateLeadScore_def Let_def)

text \<open>
  C1. The score returned by \<open>calculateLeadScore\<close> is always an integer between 0 and 30,
  and for a review count that is not negative it is the clamped sum of exactly the
  published terms: 10, 8, 5, 3 or 1 for the review count, 9 or 4 or 0 for the rating, 3
  when there is no website, 7 when the niche matches the high-value list. The handler
  reads the review count and the rating as \<^verbatim>\<open>|| 0\<close> of the object's properties and
  the website presence as the truthiness of its \<open>website\<close>.
\<close>

theorem scorer_published_policy:
  "0 \<le> calculateLeadScore place nm \<and> calculateLeadScore place nm \<le> 30 \<and>
   (0 \<le> or_zero (user_ratings_total place) \<longrightarrow>
      calculateLeadScore place nm =
        published_score (or_zero (user_ratings_total place)) (or_zero (gobj.rating place))
          (truthy_str (gobj.website place)) nm)"
proof -
  have "calculateLeadScore place nm =
        published_score (or_zero (user_ratings_total place)) (or_zero (gobj.rating place))
          (truthy_str (gobj.website place)) nm"
    if "0 \<le> or_zero (user_ratings_total place)"
    using that
    by (simp add: calculateLeadScore_def published_score_def review_term_def rating_term_def
        website_term_def niche_term_def niche_matches_code Let_def)
  then show ?thesis
    using score_sum_bounds by blast
qed

theorem scorer_published_policy_witness:
  "(0::int) \<le> 5 \<and>
   calculateLeadScore plumber_place ''Emergency PLUMBERS'' =
     published_score 5 (32 / 10) False ''Emergency PLUMBERS''"
  using scorer_published_policy [of plumber_place "''Emergency PLUMBERS''"]
  by (simp add: plumber_place_def or_zero_def truthy_str_def)

text \<open>
  C7. For the niche "plumbers", 5 reviews, a rating of 3.2 and no website the scorer
  returns 27, and \<open>getTier\<close> labels 27 as HOT.
\<close>

theorem plumbers_scenario:
  "calculateLeadScore plumber_place ''plumbers'' = 27 \<and> label (getTier 27) = ''HOT''"
  by (simp add: plumber_place_def calculateLeadScore_def or_zero_def truthy_str_def
      highValueNiches_def toLowerCase_def lower_char_def getTier_def)

section \<open>Lemmas on the duplicate check and the store\<close>

lemma save_lead_duplicate:
  assumes "kv (db r) (''lead:'' @ lead_id l) = Some v"
    and "\<not> failing (db r) (Get (''lead:'' @ lead_id l))"
  shows "save_lead l r = (None, r)"
  using assms by (simp add: save_lead_def kv_get_def)

lemma save_lead_new:
  assumes "kv (db r) (''lead:'' @ lead_id l) = None" and "healthy (db r)"
  shows "save_lead l r =
    (None, r\<lparr>run.leads := run.leads r @ [l],
             db := (db r)\<lparr>kv := (kv (db r))(''lead:'' @ lead_id l \<mapsto> Parsed l),
                           ids := (if lead_id l \<in> set (ids (db r)) then ids (db r)
                                   else ids (db r) @ [lead_id l])\<rparr>\<rparr>)"
  using assms by (simp add: save_lead_def kv_get_def kv_set_def kv_sadd_def healthy_def Let_def)

lemma scored_lead_fields:
  "lead_id ((new_lead j p d)\<lparr>lead_score := n\<rparr>) = place_id p"
  "phone ((new_lead j p d)\<lparr>lead_score := n\<rparr>) = or_empty (formatted_phone_number d)"
  "lead.website ((new_lead j p d)\<lparr>lead_score := n\<rparr>) = []"
  by (simp_all add: new_lead_def)

lemma truthy_phone: "truthy_str v \<Longrightarrow> or_empty v \<noteq> []"
  by (auto simp: truthy_str_def or_empty_def split: option.splits)

subsection \<open>What a run of the handler does to the store\<close>

lemma grows_refl: "grows st st"
  by (simp add: grows_def split: option.split)

lemma grows_trans: "grows a b \<Longrightarrow> grows b c \<Longrightarrow> grows a c"
  unfolding grows_def
proof (intro allI)
  fix k
  assume ab: "\<forall>k. case kv a k of Some v \<Rightarrow> kv b k = Some v
                 | None \<Rightarrow> (case kv b k of None \<Rightarrow> True | Some v \<Rightarrow> qualified_entry k v)"
    and bc: "\<forall>k. case kv b k of Some v \<Rightarrow> kv c k = Some v
                 | None \<Rightarrow> (case kv c k of None \<Rightarrow> True | Some v \<Rightarrow> qualified_entry k v)"
  show "case kv a k of Some v \<Rightarrow> kv c k = Some v
        | None \<Rightarrow> (case kv c k of None \<Rightarrow> True | Some v \<Rightarrow> qualified_entry k v)"
    using ab [rule_format, of k] bc [rule_format, of k]
    by (auto split: option.splits)
qed

lemma grows_map_le:
  assumes "grows a b"
  shows "kv a \<subseteq>\<^sub>m kv b"
proof -
  have "kv a k = kv b k" if "k \<in> dom (kv a)" for k
    using assms [unfolded grows_def, rule_format, of k] that by (auto split: option.splits)
  then show ?thesis
    by (simp add: map_le_def)
qed

lemma save_lead_grows:
  assumes "save_lead l r = (e, r')" and "phone l \<noteq> []" and "lead.website l = []"
  shows "grows (db r) (db r')"
  using assms unfolding save_lead_def kv_get_def kv_set_def kv_sadd_def Let_def
  by (auto simp: grows_def qualified_entry_def split: if_splits option.splits)

lemma handle_details_grows:
  assumes "handle_details j p d r = (e, r')"
  shows "grows (db r) (db r')"
proof (cases "\<not> truthy_str (gobj.website d) \<and> truthy_str (formatted_phone_number d)")
  case True
  let ?l = "(new_lead j p d)\<lparr>lead_score := calculateLeadScore (spread p d) (job.niche j)\<rparr>"
  have "save_lead ?l r = (e, r')"
    using assms True by (simp add: handle_details_def)
  moreover have "phone ?l \<noteq> []"
    using True by (simp add: scored_lead_fields truthy_phone)
  moreover have "lead.website ?l = []"
    by (simp add: scored_lead_fields)
  ultimately show ?thesis
    by (rule save_lead_grows)
next
  case False
  then have "r' = r"
    using assms by (auto simp: handle_details_def)
  then show ?thesis
    by (simp add: grows_refl)
qed

lemma visit_place_grows:
  assumes "visit_place j p r = (e, r')"
  shows "grows (db r) (db r')"
  using assms unfolding visit_place_def Let_def
  by (auto simp: grows_refl split: fetched.splits if_splits option.splits
      dest!: handle_details_grows)

lemma for_places_grows:
  "for_places j ps r = (e, r') \<Longrightarrow> grows (db r) (db r')"
proof (induction ps arbitrary: r)
  case Nil
  then show ?case by (simp add: grows_refl)
next
  case (Cons p ps)
  obtain e1 r1 where v: "visit_place j p r = (e1, r1)"
    by (cases "visit_place j p r")
  then have g1: "grows (db r) (db r1)"
    by (rule visit_place_grows)
  show ?case
  proof (cases "js_ge (of_nat (length (run.leads r))) (limit j) \<or> e1 \<noteq> None")
    case True
    then have "r' = r \<or> r' = r1"
      using Cons.prems v by (auto split: if_splits)
    then show ?thesis
      using g1 grows_refl by blast
  next
    case False
    then have "for_places j ps r1 = (e, r')"
      using Cons.prems v by simp
    then show ?thesis
      using Cons.IH g1 grows_trans by blast
  qed
qed

lemma loop_body_grows:
  "loop_body j tok r = (f, r') \<Longrightarrow> grows (db r) (db r')"
  unfolding loop_body_def Let_def
  by (auto simp: grows_refl split: fetched.splits if_splits prod.splits option.splits
      dest!: for_places_grows)

text \<open>
  Induction over the passes of a loop that ends: either the pass is the last one, or the
  loop goes on from the state that the pass leaves.
\<close>

lemma do_while_induct [consumes 1, case_names stop again]:
  assumes "do_while j tok a r = Some y"
    and stop: "\<And>j tok a r f r1.
      loop_body j tok r = (f, r1) \<Longrightarrow>
      (\<forall>t. f = Next t \<longrightarrow>
         \<not> (truthy_str t \<and> js_lt (of_nat (length (run.leads r1))) (limit j)
            \<and> js_lt (of_int (a + 1)) (maxAttempts j))) \<Longrightarrow>
      P j tok a r (case f of Throw x \<Rightarrow> Some x | _ \<Rightarrow> None, r1)"
    and again: "\<And>j tok a r t r1 y.
      loop_body j tok r = (Next t, r1) \<Longrightarrow>
      truthy_str t \<Longrightarrow> js_lt (of_nat (length (run.leads r1))) (limit j) \<Longrightarrow>
      js_lt (of_int (a + 1)) (maxAttempts j) \<Longrightarrow>
      P j t (a + 1) r1 y \<Longrightarrow> P j tok a r y"
  shows "P j tok a r y"
  using assms(1)
proof (induct rule: do_while.raw_induct [rotated 1, consumes 1])
  case (1 dw j tok a r y)
  obtain f r1 where b: "loop_body j tok r = (f, r1)"
    by (cases "loop_body j tok r")
  show ?case
  proof (cases "\<exists>t. f = Next t \<and> truthy_str t
      \<and> js_lt (of_nat (length (run.leads r1))) (limit j)
      \<and> js_lt (of_int (a + 1)) (maxAttempts j)")
    case True
    then obtain t where t: "f = Next t" "truthy_str t"
      "js_lt (of_nat (length (run.leads r1))) (limit j)"
      "js_lt (of_int (a + 1)) (maxAttempts j)"
      by blast
    then have "dw j t (a + 1) r1 = Some y"
      using "1"(2) b by simp
    then have "P j t (a + 1) r1 y"
      by (rule "1"(1))
    then show ?thesis
      using again b t by blast
  next
    case False
    then have "y = (case f of Throw x \<Rightarrow> Some x | _ \<Rightarrow> None, r1)"
      using "1"(2) b by (auto split: flow.splits if_splits)
    then show ?thesis
      using stop [OF b] False by blast
  qed
qed

lemma do_while_grows:
  "do_while j tok a r = Some y \<Longrightarrow> grows (db r) (db (snd y))"
proof (induction rule: do_while_induct)
  case (stop j tok a r f r1)
  then show ?case
    using loop_body_grows by simp
next
  case (again j tok a r t r1 y)
  then show ?case
    using loop_body_grows grows_trans by blast
qed

lemma POST_scrape_grows:
  "POST_scrape w k d body st = Some (resp, st') \<Longrightarrow> grows st st'"
  unfolding POST_scrape_def Let_def
  by (auto simp: grows_refl split: option.splits prod.splits if_splits dest!: do_while_grows)

section \<open>Lemmas on the pagination loop\<close>







text \<open>The loop ends whenever the limit is not the positive infinity.\<close>

lemma do_while_one_pass:
  assumes "\<And>x. \<not> js_lt x (limit j)"
  shows "\<exists>y. do_while j tok a r = Some y"
  using assms
  by (subst do_while.simps) (auto split: prod.splits flow.splits)

lemma do_while_ends_finite:
  assumes "limit j = Num q"
  shows "\<exists>y. do_while j tok a r = Some y"
proof (induction "nat (\<lceil>q / 20\<rceil> - a)" arbitrary: tok a r rule: less_induct)
  case less
  obtain f r1 where b: "loop_body j tok r = (f, r1)"
    by (cases "loop_body j tok r")
  show ?case
  proof (cases "\<exists>t. f = Next t \<and> truthy_str t
      \<and> js_lt (of_nat (length (run.leads r1))) (limit j)
      \<and> js_lt (of_int (a + 1)) (maxAttempts j)")
    case True
    then obtain t where t: "f = Next t" "truthy_str t"
      "js_lt (of_nat (length (run.leads r1))) (limit j)"
      "js_lt (of_int (a + 1)) (maxAttempts j)"
      by blast
    have "rat_of_int (a + 1) < rat_of_int \<lceil>q / 20\<rceil>"
      using t(4) assms by (simp add: maxAttempts_def)
    then have "a + 1 < \<lceil>q / 20\<rceil>"
      by (simp only: of_int_less_iff)
    then have "nat (\<lceil>q / 20\<rceil> - (a + 1)) < nat (\<lceil>q / 20\<rceil> - a)"
      by simp
    then have "\<exists>y. do_while j t (a + 1) r1 = Some y"
      by (rule less)
    moreover have "do_while j tok a r = do_while j t (a + 1) r1"
      using b t by (subst do_while.simps) simp
    ultimately show ?thesis
      by simp
  next
    case False
    then show ?thesis
      using b by (subst do_while.simps) (auto split: flow.splits)
  qed
qed

lemma do_while_ends:
  assumes "limit j \<noteq> PosInf"
  shows "\<exists>y. do_while j tok a r = Some y"
proof (cases "limit j")
  case (Num q)
  then show ?thesis
    by (rule do_while_ends_finite)
next
  case PosInf
  with assms show ?thesis by simp
next
  case NegInf
  then show ?thesis
    by (intro do_while_one_pass) simp
next
  case NaN
  then show ?thesis
    by (intro do_while_one_pass) simp
qed







lemma POST_scrape_ends:
  assumes "(case limit_opt of None \<Rightarrow> Num 100 | Some k \<Rightarrow> k) \<noteq> PosInf"
  shows "\<exists>y. POST_scrape w env_key day (Some (n, c, s, limit_opt)) st = Some y"
proof -
  let ?j = "job_of w env_key day n c s limit_opt"
  have "limit ?j \<noteq> PosInf"
    using assms by (simp add: job_of_def)
  then obtain y where "do_while ?j None 0 \<lparr> run.leads = [], db = st, sent = [] \<rparr> = Some y"
    using do_while_ends by blast
  then show ?thesis
    unfolding POST_scrape_def Let_def job_of_def [symmetric]
    by (auto split: prod.splits option.splits)
qed

section \<open>Properties of the filter, the identity key and the duplicate check\<close>



text \<open>
  The claim C3 says that a lead is stored and deduplicated under a hash of its business
  name and city, and not under the identifier of the source. Here the source returns two
  places with the same name in the same city under two place ids: the handler stores
  both, each under its place id.
\<close>

theorem same_name_and_city_stored_twice:
  "map_option fst
     (POST_scrape twin_world (Some ''key'') ''2024-05-01'' demo_request empty_store) =
     Some (Ok200 \<lparr> success = True, leads_found = 2,
                   scrape_body.leads = [acme_lead, twin_lead] \<rparr>) \<and>
   map_option (ids \<circ> snd)
     (POST_scrape twin_world (Some ''key'') ''2024-05-01'' demo_request empty_store) =
     Some [''ChIJ-acme'', ''ChIJ-twin''] \<and>
   lead.name acme_lead = lead.name twin_lead \<and> lead.city acme_lead = lead.city twin_lead \<and>
   lead_id acme_lead = place_id acme \<and> lead_id twin_lead = place_id acme_twin \<and>
   lead_id acme_lead \<noteq> lead_id twin_lead"
  by code_simp

text \<open>
  C3, as the handler has it. The id of a lead is the place id that the text search
  returned for it. A qualifying candidate whose key \<^verbatim>\<open>lead:<place_id>\<close> is free is
  stored under that key and its place id joins the id set; a qualifying candidate whose
  key is taken is dropped as a duplicate. Name and city play no part in either.
\<close>

theorem identity_key_is_place_id:
  "lead_id (new_lead j place details) = place_id place \<and>
   (\<not> truthy_str (gobj.website details) \<and> truthy_str (formatted_phone_number details)
      \<and> healthy (db r) \<longrightarrow>
      (kv (db r) (''lead:'' @ place_id place) = None \<longrightarrow>
         (\<exists>l. lead_id l = place_id place \<and>
              handle_details j place details r =
                (None, r\<lparr>run.leads := run.leads r @ [l],
                         db := (db r)\<lparr>kv := (kv (db r))(''lead:'' @ place_id place \<mapsto> Parsed l),
                                       ids := (if place_id place \<in> set (ids (db r))
                                               then ids (db r)
                                               else ids (db r) @ [place_id place])\<rparr>\<rparr>))) \<and>
      (kv (db r) (''lead:'' @ place_id place) \<noteq> None \<longrightarrow>
         handle_details j place details r = (None, r)))"
proof (intro conjI impI)
  show "lead_id (new_lead j place details) = place_id place"
    by (simp add: new_lead_def)
next
  let ?l = "(new_lead j place details)
              \<lparr>lead_score := calculateLeadScore (spread place details) (job.niche j)\<rparr>"
  assume q: "\<not> truthy_str (gobj.website details) \<and> truthy_str (formatted_phone_number details)
      \<and> healthy (db r)"
  then have h: "handle_details j place details r = save_lead ?l r"
    by (simp add: handle_details_def)
  have id: "lead_id ?l = place_id place"
    by (simp add: scored_lead_fields)
  {
    assume "kv (db r) (''lead:'' @ place_id place) = None"
    then have "handle_details j place details r =
        (None, r\<lparr>run.leads := run.leads r @ [?l],
                 db := (db r)\<lparr>kv := (kv (db r))(''lead:'' @ place_id place \<mapsto> Parsed ?l),
                               ids := (if place_id place \<in> set (ids (db r)) then ids (db r)
                                       else ids (db r) @ [place_id place])\<rparr>\<rparr>)"
      using save_lead_new [of r ?l] q h id by simp
    then show "\<exists>l. lead_id l = place_id place \<and>
              handle_details j place details r =
                (None, r\<lparr>run.leads := run.leads r @ [l],
                         db := (db r)\<lparr>kv := (kv (db r))(''lead:'' @ place_id place \<mapsto> Parsed l),
                                       ids := (if place_id place \<in> set (ids (db r))
                                               then ids (db r)
                                               else ids (db r) @ [place_id place])\<rparr>\<rparr>)"
      using id by blast
  }
  {
    assume "kv (db r) (''lead:'' @ place_id place) \<noteq> None"
    then obtain v where "kv (db r) (''lead:'' @ lead_id ?l) = Some v"
      using id by auto
    moreover have "\<not> failing (db r) (Get (''lead:'' @ lead_id ?l))"
      using q by (simp add: healthy_def)
    ultimately show "handle_details j place details r = (None, r)"
      using save_lead_duplicate [of r ?l v] h by simp
  }
qed

theorem identity_key_is_place_id_witness:
  "\<not> truthy_str (gobj.website acme_details) \<and> truthy_str (formatted_phone_number acme_details) \<and>
   healthy (db fresh_run) \<and> kv (db fresh_run) (''lead:'' @ place_id acme) = None \<and>
   (\<exists>l. lead_id l = ''ChIJ-acme'' \<and>
        handle_details (demo_job denied_world (Num 100)) acme acme_details fresh_run =
          (None, fresh_run\<lparr>run.leads := [l],
                   db := empty_store\<lparr>kv := [''lead:ChIJ-acme'' \<mapsto> Parsed l],
                                      ids := [''ChIJ-acme'']\<rparr>\<rparr>)) \<and>
   \<not> truthy_str (gobj.website renamed_details) \<and>
   truthy_str (formatted_phone_number renamed_details) \<and>
   healthy (db acme_run) \<and> kv (db acme_run) (''lead:'' @ place_id acme) \<noteq> None \<and>
   gobj.name renamed_details \<noteq> gobj.name acme_details \<and>
   handle_details ((demo_job denied_world (Num 100))\<lparr>job.city := ''Dallas''\<rparr>) acme renamed_details
     acme_run = (None, acme_run)"
proof -
  have q1: "\<not> truthy_str (gobj.website acme_details)"
    "truthy_str (formatted_phone_number acme_details)"
    and q2: "\<not> truthy_str (gobj.website renamed_details)"
    "truthy_str (formatted_phone_number renamed_details)"
    and differ: "gobj.name renamed_details \<noteq> gobj.name acme_details"
    by (simp_all add: renamed_details_def acme_details_def truthy_str_def)
  have fresh: "healthy (db fresh_run)" "kv (db fresh_run) (''lead:'' @ place_id acme) = None"
    and f1: "run.leads fresh_run = []" "db fresh_run = empty_store" "ids empty_store = []"
    "kv empty_store = Map.empty"
    and busy: "healthy (db acme_run)" "kv (db acme_run) (''lead:'' @ place_id acme) \<noteq> None"
    and key: "place_id acme = ''ChIJ-acme''"
    by (simp_all add: fresh_run_def empty_store_def acme_run_def acme_def healthy_def)
  have "\<exists>l. lead_id l = ''ChIJ-acme'' \<and>
        handle_details (demo_job denied_world (Num 100)) acme acme_details fresh_run =
          (None, fresh_run\<lparr>run.leads := [l],
                   db := empty_store\<lparr>kv := [''lead:ChIJ-acme'' \<mapsto> Parsed l],
                                      ids := [''ChIJ-acme'']\<rparr>\<rparr>)"
    using identity_key_is_place_id [where j = "demo_job denied_world (Num 100)" and place = acme
        and details = acme_details and r = fresh_run] q1 fresh
    by (simp add: f1 key)
  moreover have "handle_details ((demo_job denied_world (Num 100))\<lparr>job.city := ''Dallas''\<rparr>) acme
      renamed_details acme_run = (None, acme_run)"
    using identity_key_is_place_id [where j = "(demo_job denied_world (Num 100))\<lparr>job.city := ''Dallas''\<rparr>"
        and place = acme and details = renamed_details and r = acme_run] q2 busy
    by blast
  ultimately show ?thesis
    using q1 q2 differ fresh busy by blast
qed

text \<open>
  The claim C4 says that saving a lead whose key is already in the store is reported as
  a duplicate. Here the handler is called on the store that already holds the place
  \<open>acme\<close>, and on an empty store for a place that has a website: the two responses are
  the same, success with no lead, so nothing in the response of the first call tells
  that a duplicate was met. On an empty store the same source gives one lead.
\<close>

theorem duplicate_is_not_reported:
  "kv (db acme_run) ''lead:ChIJ-acme'' = Some (Parsed acme_lead) \<and>
   map_option fst
     (POST_scrape once_world (Some ''key'') ''2024-05-01'' demo_request (db acme_run)) =
     Some (Ok200 no_leads) \<and>
   map_option fst
     (POST_scrape site_world (Some ''key'') ''2024-05-01'' demo_request empty_store) =
     Some (Ok200 no_leads) \<and>
   map_option fst
     (POST_scrape once_world (Some ''key'') ''2024-05-01'' demo_request empty_store) =
     Some (Ok200 \<lparr> success = True, leads_found = 1, scrape_body.leads = [acme_lead] \<rparr>)"
proof -
  have "kv (db acme_run) ''lead:ChIJ-acme'' = Some (Parsed acme_lead)"
    by (simp add: acme_run_def)
  moreover have "map_option fst
     (POST_scrape once_world (Some ''key'') ''2024-05-01'' demo_request (db acme_run)) =
     Some (Ok200 no_leads)"
    by code_simp
  moreover have "map_option fst
     (POST_scrape site_world (Some ''key'') ''2024-05-01'' demo_request empty_store) =
     Some (Ok200 no_leads)"
    by code_simp
  moreover have "map_option fst
     (POST_scrape once_world (Some ''key'') ''2024-05-01'' demo_request empty_store) =
     Some (Ok200 \<lparr> success = True, leads_found = 1, scrape_body.leads = [acme_lead] \<rparr>)"
    by code_simp
  ultimately show ?thesis
    by blast
qed

text \<open>
  C4, as the handler has it. Saving a lead whose key is already in the store leaves the
  store and the collected leads as they were: the lead is not among the leads that the
  response reports as found, and the caller gets what it gets for a candidate that the
  qualifying filter drops, with no sign of a duplicate. Saving a lead under a free key
  and then another lead with the same id stores the first one only: it is the one entry
  under the key, it is collected once, its id is in the id set, which keeps having no
  duplicates, and the second save changes nothing. Over a whole call of the handler,
  whenever it returns, every entry that was in the store stays as it was.
\<close>

theorem first_write_wins:
  "(kv (db r) (''lead:'' @ lead_id l) \<noteq> None \<and> \<not> failing (db r) (Get (''lead:'' @ lead_id l))
      \<longrightarrow> save_lead l r = (None, r) \<and>
          (truthy_str (gobj.website details) \<longrightarrow>
             save_lead l r = handle_details j place details r)) \<and>
   (kv (db r) (''lead:'' @ lead_id l) = None \<and> healthy (db r) \<and> lead_id l_again = lead_id l \<longrightarrow>
      fst (save_lead l r) = None \<and>
      run.leads (snd (save_lead l r)) = run.leads r @ [l] \<and>
      kv (db (snd (save_lead l r))) (''lead:'' @ lead_id l) = Some (Parsed l) \<and>
      lead_id l \<in> set (ids (db (snd (save_lead l r)))) \<and>
      (distinct (ids (db r)) \<longrightarrow> distinct (ids (db (snd (save_lead l r))))) \<and>
      save_lead l_again (snd (save_lead l r)) = (None, snd (save_lead l r))) \<and>
   (POST_scrape w env_key day body st = Some (resp, st') \<longrightarrow> kv st \<subseteq>\<^sub>m kv st')"
proof (intro conjI impI)
  assume "kv (db r) (''lead:'' @ lead_id l) \<noteq> None \<and> \<not> failing (db r) (Get (''lead:'' @ lead_id l))"
  then show dup: "save_lead l r = (None, r)"
    using save_lead_duplicate by blast
  assume "truthy_str (gobj.website details)"
  then show "save_lead l r = handle_details j place details r"
    using dup by (simp add: handle_details_def)
next
  assume "POST_scrape w env_key day body st = Some (resp, st')"
  then show "kv st \<subseteq>\<^sub>m kv st'"
    using POST_scrape_grows grows_map_le by blast
next
  assume a: "kv (db r) (''lead:'' @ lead_id l) = None \<and> healthy (db r) \<and> lead_id l_again = lead_id l"
  let ?r1 = "snd (save_lead l r)"
  have r1: "save_lead l r =
    (None, r\<lparr>run.leads := run.leads r @ [l],
             db := (db r)\<lparr>kv := (kv (db r))(''lead:'' @ lead_id l \<mapsto> Parsed l),
                           ids := (if lead_id l \<in> set (ids (db r)) then ids (db r)
                                   else ids (db r) @ [lead_id l])\<rparr>\<rparr>)"
    using a save_lead_new by blast
  show "fst (save_lead l r) = None"
    and "run.leads ?r1 = run.leads r @ [l]"
    and "kv (db ?r1) (''lead:'' @ lead_id l) = Some (Parsed l)"
    and "lead_id l \<in> set (ids (db ?r1))"
    by (simp_all add: r1)
  show "save_lead l_again ?r1 = (None, ?r1)"
  proof (rule save_lead_duplicate)
    show "kv (db ?r1) (''lead:'' @ lead_id l_again) = Some (Parsed l)"
      using a by (simp add: r1)
    show "\<not> failing (db ?r1) (Get (''lead:'' @ lead_id l_again))"
      using a by (simp add: r1 healthy_def)
  qed
  assume "distinct (ids (db r))"
  then show "distinct (ids (db ?r1))"
    by (simp add: r1)
qed

theorem first_write_wins_witness:
  "kv (db busy_run) (''lead:'' @ lead_id lead_a2) = Some (Parsed lead_a) \<and>
   lead_a2 \<noteq> lead_a \<and>
   save_lead lead_a2 busy_run = (None, busy_run) \<and>
   truthy_str (gobj.website site_details) \<and>
   save_lead lead_a2 busy_run =
     handle_details (demo_job once_world (Num 100)) acme site_details busy_run \<and>
   kv (db fresh_run) (''lead:'' @ lead_id lead_a) = None \<and> healthy (db fresh_run) \<and>
   lead_id lead_a2 = lead_id lead_a \<and> distinct (ids (db fresh_run)) \<and>
   run.leads (snd (save_lead lead_a fresh_run)) = [lead_a] \<and>
   kv (db (snd (save_lead lead_a fresh_run))) ''lead:a'' = Some (Parsed lead_a) \<and>
   distinct (ids (db (snd (save_lead lead_a fresh_run)))) \<and>
   save_lead lead_a2 (snd (save_lead lead_a fresh_run)) = (None, snd (save_lead lead_a fresh_run)) \<and>
   (\<exists>resp st'. POST_scrape once_world (Some ''key'') ''2024-05-01'' demo_request (db acme_run)
                  = Some (resp, st') \<and>
               kv st' ''lead:ChIJ-acme'' = Some (Parsed acme_lead))"
proof -
  have dup: "kv (db busy_run) (''lead:'' @ lead_id lead_a2) = Some (Parsed lead_a)"
    and nofail: "\<not> failing (db busy_run) (Get (''lead:'' @ lead_id lead_a2))"
    and differ: "lead_a2 \<noteq> lead_a"
    and same: "lead_id lead_a2 = lead_id lead_a"
    and key: "''lead:'' @ lead_id lead_a = ''lead:a''"
    by (simp_all add: busy_run_def lead_a2_def lead_a_def)
  have ne: "kv (db busy_run) (''lead:'' @ lead_id lead_a2) \<noteq> None"
    using dup by simp
  have site: "truthy_str (gobj.website site_details)"
    by (simp add: site_details_def acme_details_def truthy_str_def)
  have free: "kv (db fresh_run) (''lead:'' @ lead_id lead_a) = None"
    and ok: "healthy (db fresh_run)"
    and d: "distinct (ids (db fresh_run))"
    and none: "run.leads fresh_run = []"
    by (simp_all add: fresh_run_def empty_store_def healthy_def)
  have held: "kv (db acme_run) ''lead:ChIJ-acme'' = Some (Parsed acme_lead)"
    by (simp add: acme_run_def)
  obtain resp st' where
    post: "POST_scrape once_world (Some ''key'') ''2024-05-01'' demo_request (db acme_run)
             = Some (resp, st')"
    using POST_scrape_ends [of None once_world "Some ''key''" "''2024-05-01''"
        "Some ''plumbers''" "Some ''Houston''" "Some ''TX''" "db acme_run"]
    by (auto simp: demo_request_def)
  note w1 = first_write_wins [where r = busy_run and l = lead_a2 and l_again = lead_a2
      and details = site_details and j = "demo_job once_world (Num 100)" and place = acme
      and st = "db acme_run" and w = once_world and env_key = "Some ''key''"
      and day = "''2024-05-01''" and body = demo_request and resp = resp and st' = st']
  note w2 = first_write_wins [where r = fresh_run and l = lead_a and l_again = lead_a2
      and details = site_details and j = "demo_job once_world (Num 100)" and place = acme
      and st = "db acme_run" and w = once_world and env_key = "Some ''key''"
      and day = "''2024-05-01''" and body = demo_request and resp = resp and st' = st']
  have "save_lead lead_a2 busy_run = (None, busy_run) \<and>
    save_lead lead_a2 busy_run =
      handle_details (demo_job once_world (Num 100)) acme site_details busy_run"
    using w1 [THEN conjunct1] ne nofail site by blast
  moreover have "run.leads (snd (save_lead lead_a fresh_run)) = [lead_a] \<and>
   kv (db (snd (save_lead lead_a fresh_run))) ''lead:a'' = Some (Parsed lead_a) \<and>
   distinct (ids (db (snd (save_lead lead_a fresh_run)))) \<and>
   save_lead lead_a2 (snd (save_lead lead_a fresh_run)) = (None, snd (save_lead lead_a fresh_run))"
    using w2 [THEN conjunct2, THEN conjunct1] free ok same d none key by simp
  moreover have "kv (db acme_run) \<subseteq>\<^sub>m kv st'"
    using w1 [THEN conjunct2, THEN conjunct2] post by blast
  then have "kv st' ''lead:ChIJ-acme'' = Some (Parsed acme_lead)"
    using held by (auto simp: map_le_def dom_def)
  ultimately show ?thesis
    using dup differ site free ok same d post by blast
qed

section \<open>Properties of the pagination loop\<close>








section \<open>Properties of the stats handler\<close>

text \<open>
  C10. The stats handler answers every store with a success response that carries
  counts. When its \<^verbatim>\<open>try\<close> block throws (the store fails, or an entry does not
  parse) the counts are all zero, and so they are when the id set is empty: a failure
  and an empty store give the same response.
\<close>

theorem stats_never_fails:
  "(\<exists>s. fst (GET_stats day st) = Ok200 s) \<and>
   ((\<exists>e. fst (stats_try day st) = Inl e) \<longrightarrow> fst (GET_stats day st) = Ok200 zero_stats) \<and>
   (ids st = [] \<longrightarrow> fst (GET_stats day st) = Ok200 zero_stats)"
  by (auto simp: GET_stats_def stats_try_def kv_smembers_def split: prod.splits sum.splits)

theorem stats_never_fails_witness:
  "fst (stats_try ''2024-05-01'' broken_store) = Inl KvFailure \<and>
   ids broken_store \<noteq> [] \<and>
   fst (GET_stats ''2024-05-01'' broken_store) = Ok200 zero_stats \<and>
   ids empty_store = [] \<and>
   fst (GET_stats ''2024-05-01'' empty_store) = Ok200 zero_stats \<and>
   fst (GET_stats ''2024-05-01'' broken_store) = fst (GET_stats ''2024-05-01'' empty_store)"
  using stats_never_fails [of "''2024-05-01''" broken_store]
    stats_never_fails [of "''2024-05-01''" empty_store]
  by (simp add: broken_store_def empty_store_def stats_try_def kv_smembers_def)

section \<open>Properties of the export\<close>

lemma export_loop_store: "snd (export_loop is acc st) = st"
  by (induction "is" arbitrary: acc)
     (auto simp: kv_get_def split: sum.splits option.splits kvval.splits)

lemma export_loop_leads:
  "export_loop is acc st = (Inr ls, st') \<Longrightarrow>
     ls = acc @ List.map_filter
                  (\<lambda>i. case kv st (''lead:'' @ i) of Some (Parsed l) \<Rightarrow> Some l | _ \<Rightarrow> None) is"
proof (induction "is" arbitrary: acc)
  case Nil
  then show ?case by (simp add: List.map_filter_simps)
next
  case (Cons i "is")
  show ?case
  proof (cases "kv st (''lead:'' @ i)")
    case None
    then have "export_loop is acc st = (Inr ls, st')"
      using Cons.prems by (simp add: kv_get_def split: if_splits)
    then show ?thesis
      using Cons.IH None by (simp add: List.map_filter_simps)
  next
    case (Some v)
    show ?thesis
    proof (cases v)
      case (Parsed l)
      then have "export_loop is (acc @ [l]) st = (Inr ls, st')"
        using Cons.prems Some by (simp add: kv_get_def split: if_splits)
      then have "ls = (acc @ [l]) @ List.map_filter
          (\<lambda>i. case kv st (''lead:'' @ i) of Some (Parsed l) \<Rightarrow> Some l | _ \<Rightarrow> None) is"
        by (rule Cons.IH)
      then show ?thesis
        using Some Parsed by (simp add: List.map_filter_simps)
    next
      case Unparsable
      then show ?thesis
        using Cons.prems Some by (simp add: kv_get_def split: if_splits)
    qed
  qed
qed

lemma GET_export_store: "snd (GET_export st) = st"
proof -
  have "snd (export_try st) = st"
    using export_loop_store [of "ids st" "[]" st]
    by (auto simp: export_try_def kv_smembers_def split: prod.splits sum.splits)
  then show ?thesis
    by (auto simp: GET_export_def split: prod.splits sum.splits)
qed

lemma GET_export_csv:
  assumes "fst (GET_export st) = Ok200 csv"
  shows "csv = csv_of (sort_by_score (enumerated_leads st))"
  using assms export_loop_leads [of "ids st" "[]" st]
  by (auto simp: GET_export_def export_try_def kv_smembers_def enumerated_leads_def
      split: prod.splits sum.splits if_splits)

lemma sort_by_score_descending:
  "sorted_wrt (\<lambda>a b. lead_score a \<ge> lead_score b) (sort_by_score ls)"
proof -
  have "sorted (map (\<lambda>l. - lead_score l) (sort_by_score ls))"
    by (simp add: sort_by_score_def)
  then show ?thesis
    by (simp add: sorted_wrt_map)
qed

lemma sort_by_score_stable:
  "filter (\<lambda>l. lead_score l = s) (sort_by_score ls) = filter (\<lambda>l. lead_score l = s) ls"
  using sort_key_stable [of "\<lambda>l. - lead_score l" "- s" ls]
  by (simp add: sort_by_score_def)

lemma escape_quotes_Cons:
  "escape_quotes (c # cs) = (if c = dquote then [backslash, dquote] else [c]) @ escape_quotes cs"
  by (simp add: escape_quotes_def)

lemma escape_quotes_no_bare: "no_bare_quote p (escape_quotes s)"
  by (induction s arbitrary: p)
     (simp_all add: escape_quotes_Cons escape_quotes_def dquote_def backslash_def)

lemma header_line:
  "join '','' headers =
     ''name,phone,niche,city,state,address,rating,review_count,lead_score,gmb_link''"
  by (simp add: headers_def)

text \<open>
  The claim C5 says that the rows of the export are ordered by score with ties broken by
  identity key ascending. Here two stores hold the same two leads of equal score and the
  same id set, enumerated in the two possible orders: each export lists the leads in the
  order of the enumeration, so one of them has the key b before the key a, and the two
  outputs differ.
\<close>

theorem export_ties_follow_enumeration:
  "fst (GET_export tie_store_ba) = Ok200 (csv_of [lead_b, lead_a]) \<and>
   fst (GET_export tie_store_ab) = Ok200 (csv_of [lead_a, lead_b]) \<and>
   csv_of [lead_b, lead_a] \<noteq> csv_of [lead_a, lead_b] \<and>
   kv tie_store_ba = kv tie_store_ab \<and>
   set (ids tie_store_ba) = set (ids tie_store_ab) \<and>
   lead_score lead_a = lead_score lead_b \<and>
   lead_id lead_a = ''a'' \<and> lead_id lead_b = ''b''"
proof -
  have "fst (GET_export tie_store_ba) = Ok200 (csv_of [lead_b, lead_a])"
    by code_simp
  moreover have "fst (GET_export tie_store_ab) = Ok200 (csv_of [lead_a, lead_b])"
    by code_simp
  moreover have "csv_of [lead_b, lead_a] \<noteq> csv_of [lead_a, lead_b]"
    by code_simp
  moreover have "kv tie_store_ba = kv tie_store_ab"
    and "set (ids tie_store_ba) = set (ids tie_store_ab)"
    by (auto simp: tie_store_ba_def tie_store_ab_def)
  moreover have "lead_score lead_a = lead_score lead_b"
    and "lead_id lead_a = ''a''" and "lead_id lead_b = ''b''"
    by (simp_all add: lead_a_def lead_b_def)
  ultimately show ?thesis
    by blast
qed

text \<open>
  C5, as the handler has it. The export leaves the store as it was, and a second export
  on the store that the first one left gives the same response. The rows of a successful
  export are ordered by score descending, and the leads of any one score are in the order
  in which the store enumerates the id set.
\<close>

theorem export_idempotent_stable_order:
  "snd (GET_export st) = st \<and>
   GET_export (snd (GET_export st)) = GET_export st \<and>
   (fst (GET_export st) = Ok200 csv \<longrightarrow>
      (\<exists>rows. csv = csv_of rows \<and>
         sorted_wrt (\<lambda>a b. lead_score a \<ge> lead_score b) rows \<and>
         (\<forall>s. filter (\<lambda>l. lead_score l = s) rows =
              filter (\<lambda>l. lead_score l = s) (enumerated_leads st))))"
  using GET_export_store GET_export_csv sort_by_score_descending sort_by_score_stable
  by metis

theorem export_idempotent_stable_order_witness:
  "fst (GET_export tie_store_ba) = Ok200 (csv_of [lead_b, lead_a]) \<and>
   snd (GET_export tie_store_ba) = tie_store_ba \<and>
   enumerated_leads tie_store_ba = [lead_b, lead_a] \<and>
   (\<exists>rows. csv_of [lead_b, lead_a] = csv_of rows \<and>
      sorted_wrt (\<lambda>a b. lead_score a \<ge> lead_score b) rows \<and>
      filter (\<lambda>l. lead_score l = 20) rows = [lead_b, lead_a])"
proof -
  have ok: "fst (GET_export tie_store_ba) = Ok200 (csv_of [lead_b, lead_a])"
    by code_simp
  have en: "enumerated_leads tie_store_ba = [lead_b, lead_a]"
    by code_simp
  have sc: "lead_score lead_a = 20" "lead_score lead_b = 20"
    by (simp_all add: lead_a_def lead_b_def)
  have "snd (GET_export tie_store_ba) = tie_store_ba"
    using export_idempotent_stable_order [where st = tie_store_ba] by blast
  moreover have "\<exists>rows. csv_of [lead_b, lead_a] = csv_of rows \<and>
      sorted_wrt (\<lambda>a b. lead_score a \<ge> lead_score b) rows \<and>
      filter (\<lambda>l. lead_score l = 20) rows = [lead_b, lead_a]"
    using export_idempotent_stable_order [where st = tie_store_ba
        and csv = "csv_of [lead_b, lead_a]"] ok
    by (auto simp: en sc)
  ultimately show ?thesis
    using ok en by blast
qed

text \<open>
  The claim C6 says that the header row of the export is name, phone, niche, city, state,
  address, rating, review_count, lead_score, gmb_link, date_added. The header that the
  handler writes ends with gmb_link.
\<close>

theorem export_header_has_no_date_added:
  "fst (GET_export empty_store) =
     Ok200 ''name,phone,niche,city,state,address,rating,review_count,lead_score,gmb_link'' \<and>
   headers \<noteq> [''name'', ''phone'', ''niche'', ''city'', ''state'', ''address'', ''rating'',
              ''review_count'', ''lead_score'', ''gmb_link'', ''date_added''] \<and>
   ''date_added'' \<notin> set headers"
proof -
  have "fst (GET_export empty_store) =
     Ok200 ''name,phone,niche,city,state,address,rating,review_count,lead_score,gmb_link''"
    by code_simp
  then show ?thesis
    by (simp add: headers_def)
qed

text \<open>
  C6, as the handler has it. The first line of a successful export is the ten names name,
  phone, niche, city, state, address, rating, review_count, lead_score, gmb_link, and
  every further line is the row of a lead; a row is the ten cells of those properties
  joined by commas; every cell, numeric ones too, is the text of the property between two
  double quotes, with a backslash before each double quote of the text.
\<close>

theorem export_header_and_quoting:
  "(fst (GET_export st) = Ok200 csv \<longrightarrow>
      (\<exists>rows. csv = join [CHR 0x0A]
         (''name,phone,niche,city,state,address,rating,review_count,lead_score,gmb_link''
          # map csv_row rows))) \<and>
   csv_row l = join '','' (map (cell l)
      [''name'', ''phone'', ''niche'', ''city'', ''state'', ''address'', ''rating'',
       ''review_count'', ''lead_score'', ''gmb_link'']) \<and>
   cell l h = [dquote] @ escape_quotes (field_text l h) @ [dquote] \<and>
   no_bare_quote False (escape_quotes (field_text l h))"
proof (intro conjI impI)
  assume "fst (GET_export st) = Ok200 csv"
  then have "csv = csv_of (sort_by_score (enumerated_leads st))"
    by (rule GET_export_csv)
  then show "\<exists>rows. csv = join [CHR 0x0A]
         (''name,phone,niche,city,state,address,rating,review_count,lead_score,gmb_link''
          # map csv_row rows)"
    unfolding csv_of_def header_line by blast
next
  show "csv_row l = join '','' (map (cell l)
      [''name'', ''phone'', ''niche'', ''city'', ''state'', ''address'', ''rating'',
       ''review_count'', ''lead_score'', ''gmb_link''])"
    by (simp only: csv_row_def headers_def)
next
  show "cell l h = [dquote] @ escape_quotes (field_text l h) @ [dquote]"
    by (simp add: cell_def)
next
  show "no_bare_quote False (escape_quotes (field_text l h))"
    by (rule escape_quotes_no_bare)
qed

theorem export_header_and_quoting_witness:
  "fst (GET_export quoted_store) = Ok200 (csv_of [quoted_lead]) \<and>
   (\<exists>rows. csv_of [quoted_lead] = join [CHR 0x0A]
         (''name,phone,niche,city,state,address,rating,review_count,lead_score,gmb_link''
          # map csv_row rows)) \<and>
   cell quoted_lead ''name'' =
     [dquote] @ (''Joe '' @ [backslash, dquote] @ ''The'' @ [backslash, dquote] @ '' Plumber'')
       @ [dquote] \<and>
   no_bare_quote False (''Joe '' @ [backslash, dquote] @ ''The'' @ [backslash, dquote] @ '' Plumber'')"
proof -
  have ok: "fst (GET_export quoted_store) = Ok200 (csv_of [quoted_lead])"
    by code_simp
  have esc: "escape_quotes (field_text quoted_lead ''name'') =
      ''Joe '' @ [backslash, dquote] @ ''The'' @ [backslash, dquote] @ '' Plumber''"
    by code_simp
  note w = export_header_and_quoting [where st = quoted_store and csv = "csv_of [quoted_lead]"
      and l = quoted_lead and h = "''name''"]
  have "\<exists>rows. csv_of [quoted_lead] = join [CHR 0x0A]
         (''name,phone,niche,city,state,address,rating,review_count,lead_score,gmb_link''
          # map csv_row rows)"
    using w [THEN conjunct1] ok by (rule mp)
  moreover have "cell quoted_lead ''name'' =
     [dquote] @ (''Joe '' @ [backslash, dquote] @ ''The'' @ [backslash, dquote] @ '' Plumber'')
       @ [dquote]"
    using w [THEN conjunct2, THEN conjunct2, THEN conjunct1] unfolding esc .
  moreover have "no_bare_quote False
      (''Joe '' @ [backslash, dquote] @ ''The'' @ [backslash, dquote] @ '' Plumber'')"
    using w [THEN conjunct2, THEN conjunct2, THEN conjunct2] unfolding esc .
  ultimately show ?thesis
    using ok by (intro conjI)
qed

end
